theory Spec2Isabelle
  imports Main "HOL-Library.Sublist"
begin

section \<open>Python values used by the application\<close>

text \<open>
  A Python \<open>str\<close> is modelled as a \<open>string\<close> holding its UTF-8 bytes. The operator
  \<open>a in b\<close> on two \<open>str\<close> values is contiguous containment, which is \<open>sublist a b\<close>;
  on valid UTF-8 the byte view and the code-point view agree about it.
  \<open>str.lower\<close> is modelled on the ASCII letters \<open>A\<close> to \<open>Z\<close>; every other byte is left as
  it is. The model is exact on ASCII text and on text whose other characters \<open>str.lower\<close>
  keeps; the case mapping of uppercase letters outside ASCII is not modelled, and the
  theorem about the search of the filter assumes ASCII text.
\<close>

definition lower_char :: "char \<Rightarrow> char" where
  "lower_char c =
     (let n = (of_char c :: nat) in if 65 \<le> n \<and> n \<le> 90 then char_of (n + 32) else c)"

definition upper_char :: "char \<Rightarrow> char" where
  "upper_char c =
     (let n = (of_char c :: nat) in if 97 \<le> n \<and> n \<le> 122 then char_of (n - 32) else c)"

definition lower :: "string \<Rightarrow> string" where
  "lower s = map lower_char s"

text \<open>
  Exceptions are values: the class and the text that \<open>str(e)\<close> gives. \<open>RequestException\<close>
  stands for the whole hierarchy of the \<open>requests\<close> library (connection errors, timeouts,
  \<open>HTTPError\<close>), \<open>OtherException\<close> for any further subclass of \<open>Exception\<close>.
\<close>

datatype exc_class =
    KeyError | IndexError | TypeError | AttributeError
  | FileNotFoundError | JSONDecodeError | RequestException | OtherException

datatype py_exception = Exc exc_class string

fun exc_str :: "py_exception \<Rightarrow> string" where
  "exc_str (Exc c msg) = msg"

fun exc_cls :: "py_exception \<Rightarrow> exc_class" where
  "exc_cls (Exc c msg) = c"

definition bind_exc :: "py_exception + 'a \<Rightarrow> ('a \<Rightarrow> py_exception + 'b) \<Rightarrow> py_exception + 'b" where
  "bind_exc m f = (case m of Inl e \<Rightarrow> Inl e | Inr x \<Rightarrow> f x)"

text \<open>
  A scheme is a \<open>dict\<close> with string keys. The values the catalog can hold for the fields
  read here are a \<open>str\<close> or \<open>None\<close> (a JSON \<open>null\<close>); a key can also be absent.
\<close>

datatype pyval = PyNone | PyStr string

type_synonym scheme = "string \<rightharpoonup> pyval"

definition quote :: "string \<Rightarrow> string" where
  "quote k = [CHR 0x27] @ k @ [CHR 0x27]"

text \<open>\<open>d[k]\<close>: a missing key raises \<open>KeyError\<close>.\<close>

definition getitem :: "scheme \<Rightarrow> string \<Rightarrow> py_exception + pyval" where
  "getitem d k = (case d k of None \<Rightarrow> Inl (Exc KeyError (quote k)) | Some v \<Rightarrow> Inr v)"

text \<open>A replacement field \<open>{v}\<close> of an f-string: \<open>format(v, '')\<close>.\<close>

fun format :: "pyval \<Rightarrow> string" where
  "format (PyStr s) = s"
| "format PyNone = ''None''"

text \<open>\<open>v.lower()\<close>: \<open>None\<close> has no such attribute.\<close>

fun lower_method :: "pyval \<Rightarrow> py_exception + string" where
  "lower_method (PyStr s) = Inr (lower s)"
| "lower_method PyNone =
     Inl (Exc AttributeError (quote ''NoneType'' @ '' object has no attribute '' @ quote ''lower''))"

section \<open>Match scorer\<close>

text \<open>The local list \<open>keywords\<close> of \<open>calculate_match_score\<close>.\<close>

definition keywords_list :: "string list" where
  "keywords_list =
     [''farmer'', ''women'', ''youth'', ''student'', ''senior'', ''elder'', ''msme'', ''business'',
      ''entrepreneur'', ''girl'', ''female'', ''young'', ''old'', ''small'', ''enterprise'']"

text \<open>
  The local \<open>scheme_text\<close> of \<open>calculate_match_score\<close>: the three fields joined by single
  spaces, lowercased. The keys are read left to right.
\<close>

definition scheme_text :: "scheme \<Rightarrow> py_exception + string" where
  "scheme_text scheme =
     bind_exc (getitem scheme ''name'') (\<lambda>name.
     bind_exc (getitem scheme ''beneficiary'') (\<lambda>beneficiary.
     bind_exc (getitem scheme ''category'') (\<lambda>category.
       Inr (lower (format name @ '' '' @ format beneficiary @ '' '' @ format category)))))"

text \<open>The local \<open>matches\<close>: \<open>sum(1 for keyword in keywords if ... and ...)\<close>.\<close>

definition matches :: "string \<Rightarrow> string \<Rightarrow> int" where
  "matches s_text profile_text =
     sum_list (map (\<lambda>keyword. 1)
       (filter (\<lambda>keyword. sublist keyword s_text \<and> sublist keyword profile_text) keywords_list))"

definition calculate_match_score :: "scheme \<Rightarrow> string \<Rightarrow> py_exception + int" where
  "calculate_match_score scheme user_profile =
     bind_exc (scheme_text scheme) (\<lambda>s_text.
       let profile_text = lower user_profile;
           base_score = 50;
           additional_score = matches s_text profile_text * 5
       in Inr (min 95 (base_score + additional_score)))"

text \<open>
  What the three fields of a scheme hold when they are strings, and the test that a key is
  present with a \<open>str\<close> value.
\<close>

definition is_str :: "scheme \<Rightarrow> string \<Rightarrow> bool" where
  "is_str s k = (case s k of Some (PyStr t) \<Rightarrow> True | _ \<Rightarrow> False)"

definition str_field :: "scheme \<Rightarrow> string \<Rightarrow> string" where
  "str_field s k = (case s k of Some (PyStr t) \<Rightarrow> t | _ \<Rightarrow> [])"

text \<open>
  The count of the specification, in its words: the keywords of the vocabulary present in
  both the lowercased concatenation \<open>name + beneficiary + category\<close> and the lowercased
  profile text.
\<close>

definition spec_match_count :: "string \<Rightarrow> string \<Rightarrow> string \<Rightarrow> string \<Rightarrow> nat" where
  "spec_match_count name beneficiary category profile =
     card {k \<in> set keywords_list.
             sublist k (lower (name @ beneficiary @ category)) \<and> sublist k (lower profile)}"

text \<open>The same count over the three fields joined by single spaces.\<close>

definition joined_match_count :: "string \<Rightarrow> string \<Rightarrow> string \<Rightarrow> string \<Rightarrow> nat" where
  "joined_match_count name beneficiary category profile =
     card {k \<in> set keywords_list.
             sublist k (lower (name @ '' '' @ beneficiary @ '' '' @ category)) \<and>
             sublist k (lower profile)}"

text \<open>
  A change of the case of ASCII letters: the two texts have the same length and each
  character is kept, uppercased or lowercased by the ASCII maps, which fix every other byte.
\<close>

definition case_changed :: "string \<Rightarrow> string \<Rightarrow> bool" where
  "case_changed s t = list_all2 (\<lambda>a b. b = a \<or> b = upper_char a \<or> b = lower_char a) s t"

text \<open>
  Letter case is not confined to ASCII. U+017F LATIN SMALL LETTER LONG S (UTF-8 \<open>C5 BF\<close>)
  is a lowercase letter: \<open>str.lower\<close> keeps it, \<open>str.upper\<close> gives \<open>S\<close>, and Unicode
  caseless matching identifies it with \<open>s\<close>. Two texts are case variants when they agree up
  to the case of their ASCII letters and up to a long s standing for \<open>s\<close> or \<open>S\<close>. Of the
  cased letters outside ASCII only this one is listed; on ASCII text the relation is the
  full one.
\<close>

definition long_s :: string where
  "long_s = [CHR 0xC5, CHR 0xBF]"

fun case_variant :: "string \<Rightarrow> string \<Rightarrow> bool" where
  "case_variant [] [] = True"
| "case_variant [] (b # t) = False"
| "case_variant (a # s) [] = False"
| "case_variant (a # s) (b # t) =
     ((lower_char a = lower_char b \<and> case_variant s t) \<or>
      (prefix long_s (a # s) \<and> lower_char b = CHR ''s'' \<and> case_variant (drop 1 s) t) \<or>
      (prefix long_s (b # t) \<and> lower_char a = CHR ''s'' \<and> case_variant s (drop 1 t)))"

definition ascii_text :: "string \<Rightarrow> bool" where
  "ascii_text s = list_all (\<lambda>c. (of_char c :: nat) < 128) s"

text \<open>
  Whole words of a text: the maximal runs of ASCII letters and digits. A keyword occurs as a
  whole word when it is one of them.
\<close>

definition is_word_char :: "char \<Rightarrow> bool" where
  "is_word_char c =
     (let n = (of_char c :: nat)
      in (48 \<le> n \<and> n \<le> 57) \<or> (65 \<le> n \<and> n \<le> 90) \<or> (97 \<le> n \<and> n \<le> 122))"

fun split_words :: "string \<Rightarrow> string \<Rightarrow> string list" where
  "split_words acc [] = (if acc = [] then [] else [acc])"
| "split_words acc (c # cs) =
     (if is_word_char c then split_words (acc @ [c]) cs
      else (if acc = [] then [] else [acc]) @ split_words [] cs)"

definition whole_word :: "string \<Rightarrow> string \<Rightarrow> bool" where
  "whole_word k t = (k \<in> set (split_words [] t))"

section \<open>Filter engine\<close>

text \<open>
  A list comprehension \<open>[s for s in xs if p(s)]\<close> whose condition can raise: the elements
  are tested in order and the first exception ends the comprehension.
\<close>

fun filter_exc :: "('a \<Rightarrow> py_exception + bool) \<Rightarrow> 'a list \<Rightarrow> py_exception + 'a list" where
  "filter_exc p [] = Inr []"
| "filter_exc p (x # xs) =
     bind_exc (p x) (\<lambda>b.
     bind_exc (filter_exc p xs) (\<lambda>ys. Inr (if b then x # ys else ys)))"

text \<open>\<open>search_lower in s[k].lower()\<close>.\<close>

definition field_contains :: "string \<Rightarrow> scheme \<Rightarrow> string \<Rightarrow> py_exception + bool" where
  "field_contains search_lower s k =
     bind_exc (getitem s k) (\<lambda>v.
     bind_exc (lower_method v) (\<lambda>t. Inr (sublist search_lower t)))"

text \<open>\<open>a or b\<close>: \<open>b\<close> is evaluated only when \<open>a\<close> is false.\<close>

definition or_else :: "py_exception + bool \<Rightarrow> py_exception + bool \<Rightarrow> py_exception + bool" where
  "or_else a b = bind_exc a (\<lambda>x. if x then Inr True else b)"

definition search_condition :: "string \<Rightarrow> scheme \<Rightarrow> py_exception + bool" where
  "search_condition search_lower s =
     or_else (field_contains search_lower s ''name'')
    (or_else (field_contains search_lower s ''description'')
    (or_else (field_contains search_lower s ''ministry'')
             (field_contains search_lower s ''beneficiary'')))"

text \<open>\<open>s[k] == wanted\<close>, where \<open>wanted\<close> is a \<open>str\<close>.\<close>

definition field_equals :: "string \<Rightarrow> string \<Rightarrow> scheme \<Rightarrow> py_exception + bool" where
  "field_equals k wanted s = bind_exc (getitem s k) (\<lambda>v. Inr (v = PyStr wanted))"

text \<open>
  The four stages of \<open>filter_schemes\<close>, each run on the result of the one before. The copy
  \<open>schemes.copy()\<close> is a list equal to its argument; \<open>if search_query\<close> holds for a
  non-empty string.
\<close>

definition filter_schemes ::
  "scheme list \<Rightarrow> string \<Rightarrow> string \<Rightarrow> string \<Rightarrow> string \<Rightarrow> py_exception + scheme list" where
  "filter_schemes schemes search_query ministry_filter beneficiary_filter category_filter =
     bind_exc (if search_query \<noteq> []
               then filter_exc (search_condition (lower search_query)) schemes
               else Inr schemes) (\<lambda>filtered.
     bind_exc (if ministry_filter \<noteq> ''All Ministries''
               then filter_exc (field_equals ''ministry'' ministry_filter) filtered
               else Inr filtered) (\<lambda>filtered.
     bind_exc (if beneficiary_filter \<noteq> ''All Types''
               then filter_exc (field_equals ''beneficiary'' beneficiary_filter) filtered
               else Inr filtered) (\<lambda>filtered.
     (if category_filter \<noteq> ''All Categories''
      then filter_exc (field_equals ''category'' category_filter) filtered
      else Inr filtered))))"

text \<open>
  The selection of the specification, in its words. A query occurs case-insensitively as a
  substring of a text when some contiguous part of the text is a case variant of the query.
\<close>

definition occurs_caseless :: "string \<Rightarrow> string \<Rightarrow> bool" where
  "occurs_caseless q t = (\<exists>ps u ss. t = ps @ u @ ss \<and> case_variant u q)"

text \<open>The same up to the case of ASCII letters only.\<close>

definition occurs_ci :: "string \<Rightarrow> string \<Rightarrow> bool" where
  "occurs_ci q t = (\<exists>ps u ss. t = ps @ u @ ss \<and> lower u = lower q)"

text \<open>The four fields that the search reads hold ASCII text.\<close>

definition ascii_fields :: "scheme \<Rightarrow> bool" where
  "ascii_fields s =
     list_all (\<lambda>k. ascii_text (str_field s k))
       [''name'', ''description'', ''ministry'', ''beneficiary'']"

definition well_formed :: "scheme \<Rightarrow> bool" where
  "well_formed s =
     list_all (is_str s)
       [''name'', ''description'', ''ministry'', ''beneficiary'', ''benefit'', ''category'']"

definition selected :: "string \<Rightarrow> string \<Rightarrow> string \<Rightarrow> string \<Rightarrow> scheme \<Rightarrow> bool" where
  "selected query ministry beneficiary category s =
     ((query = [] \<or> occurs_caseless query (str_field s ''name'')
                  \<or> occurs_caseless query (str_field s ''description'')
                  \<or> occurs_caseless query (str_field s ''ministry'')
                  \<or> occurs_caseless query (str_field s ''beneficiary''))
      \<and> (ministry = ''All Ministries'' \<or> str_field s ''ministry'' = ministry)
      \<and> (beneficiary = ''All Types'' \<or> str_field s ''beneficiary'' = beneficiary)
      \<and> (category = ''All Categories'' \<or> str_field s ''category'' = category))"

section \<open>Example schemes\<close>

text \<open>The scheme of the specification's worked example.\<close>

definition kisan :: scheme where
  "kisan = [''name'' \<mapsto> PyStr ''Kisan Samman'', ''beneficiary'' \<mapsto> PyStr ''farmer'',
            ''category'' \<mapsto> PyStr ''Farmers'']"

text \<open>A scheme whose text holds the keyword \<open>old\<close> only inside the word \<open>household\<close>.\<close>

definition household :: scheme where
  "household = [''name'' \<mapsto> PyStr ''Household Support'', ''beneficiary'' \<mapsto> PyStr ''Families'',
                ''category'' \<mapsto> PyStr ''Welfare'']"

text \<open>A scheme whose fields spell the keyword \<open>small\<close> across their boundaries.\<close>

definition boundary :: scheme where
  "boundary = [''name'' \<mapsto> PyStr ''sm'', ''beneficiary'' \<mapsto> PyStr ''all'',
               ''category'' \<mapsto> PyStr ''x'']"

text \<open>Two catalog entries with every field of the data model that the core reads.\<close>

definition kisan_full :: scheme where
  "kisan_full =
     [''name'' \<mapsto> PyStr ''Kisan Samman'', ''description'' \<mapsto> PyStr ''Income support'',
      ''ministry'' \<mapsto> PyStr ''Ministry of Agriculture'', ''beneficiary'' \<mapsto> PyStr ''farmer'',
      ''benefit'' \<mapsto> PyStr ''Rs 6000 a year'', ''category'' \<mapsto> PyStr ''Farmers'']"

definition mahila :: scheme where
  "mahila =
     [''name'' \<mapsto> PyStr ''Mahila Shakti'',
      ''description'' \<mapsto> PyStr ''Support for Women entrepreneurs'',
      ''ministry'' \<mapsto> PyStr ''Ministry of Women and Child Development'',
      ''beneficiary'' \<mapsto> PyStr ''Women'', ''benefit'' \<mapsto> PyStr ''Loans'',
      ''category'' \<mapsto> PyStr ''Women'']"

text \<open>A catalog entry whose name is written with a long s, and two spellings of a name.\<close>

definition long_s_scheme :: scheme where
  "long_s_scheme =
     [''name'' \<mapsto> PyStr (long_s @ ''enior Care''),
      ''description'' \<mapsto> PyStr ''Day care centres'',
      ''ministry'' \<mapsto> PyStr ''Ministry of Social Justice'',
      ''beneficiary'' \<mapsto> PyStr ''Elderly'', ''benefit'' \<mapsto> PyStr ''Care'',
      ''category'' \<mapsto> PyStr ''Senior Citizens'']"

definition care :: "string \<Rightarrow> scheme" where
  "care name = [''name'' \<mapsto> PyStr name, ''beneficiary'' \<mapsto> PyStr ''Families'',
                ''category'' \<mapsto> PyStr ''Welfare'']"

section \<open>JSON documents\<close>

text \<open>
  What \<open>json.load\<close> and \<open>response.json()\<close> return. An object holds its items with distinct
  keys. Numbers are the integers; floating-point numbers are not modelled.
\<close>

datatype json =
  JNull | JBool bool | JNum int | JStr string | JArr "json list" | JObj "(string \<times> json) list"

fun type_name :: "json \<Rightarrow> string" where
  "type_name JNull = ''NoneType''"
| "type_name (JBool b) = ''bool''"
| "type_name (JNum n) = ''int''"
| "type_name (JStr s) = ''str''"
| "type_name (JArr xs) = ''list''"
| "type_name (JObj kvs) = ''dict''"

definition no_attribute :: "json \<Rightarrow> string \<Rightarrow> py_exception" where
  "no_attribute v a =
     Exc AttributeError (quote (type_name v) @ '' object has no attribute '' @ quote a)"

section \<open>Catalog loader\<close>

text \<open>
  The file system and the parser are the environment of \<open>load_schemes\<close>: \<open>open\<close> raises, or
  \<open>json.load\<close> raises on the opened file, or it returns the parsed document.
\<close>

datatype file_outcome = OpenRaises py_exception | LoadRaises py_exception | LoadReturns json

text \<open>\<open>data.get(k, default)\<close>: only a \<open>dict\<close> has the method.\<close>

fun get_method :: "json \<Rightarrow> string \<Rightarrow> json \<Rightarrow> py_exception + json" where
  "get_method (JObj kvs) k d = Inr (case map_of kvs k of None \<Rightarrow> d | Some v \<Rightarrow> v)"
| "get_method v k d = Inl (no_attribute v ''get'')"

definition not_found_message :: string where
  "not_found_message =
     [CHR 0xE2, CHR 0x9D, CHR 0x8C] @
     '' schemes.json not found. Please ensure the file exists in the project directory.''"

text \<open>
  The state is the list of messages shown with \<open>st.error\<close>. The handler catches
  \<open>FileNotFoundError\<close> only; any other exception of the body leaves the function. The
  caching decorator is not modelled: the body is what runs on the first call.
\<close>

definition load_schemes :: "file_outcome \<Rightarrow> string list \<Rightarrow> (py_exception + json) \<times> string list" where
  "load_schemes file shown =
     (let body = (case file of
                    OpenRaises e \<Rightarrow> Inl e
                  | LoadRaises e \<Rightarrow> Inl e
                  | LoadReturns data \<Rightarrow> get_method data ''schemes'' (JArr []))
      in case body of
           Inr v \<Rightarrow> (Inr v, shown)
         | Inl e \<Rightarrow>
             if exc_cls e = FileNotFoundError
             then (Inr (JArr []), shown @ [not_found_message])
             else (Inl e, shown))"

section \<open>Explanation generator\<close>

text \<open>The module constants read from the environment; \<open>os.getenv\<close> gives \<open>None\<close> or a string.\<close>

record config =
  AZURE_OPENAI_API_KEY :: "string option"
  AZURE_OPENAI_ENDPOINT :: "string option"
  AZURE_OPENAI_DEPLOYMENT_NAME :: string

definition AZURE_OPENAI_API_VERSION :: string where
  "AZURE_OPENAI_API_VERSION = ''2023-05-15''"

fun truthy :: "string option \<Rightarrow> bool" where
  "truthy None = False"
| "truthy (Some s) = (s \<noteq> [])"

fun format_env :: "string option \<Rightarrow> string" where
  "format_env None = ''None''"
| "format_env (Some s) = s"

text \<open>\<open>all([AZURE_OPENAI_API_KEY, AZURE_OPENAI_ENDPOINT])\<close>.\<close>

definition configured :: "config \<Rightarrow> bool" where
  "configured cfg = list_all truthy [AZURE_OPENAI_API_KEY cfg, AZURE_OPENAI_ENDPOINT cfg]"

text \<open>
  The call \<open>requests.post(url, json=data, headers=headers, timeout=10)\<close>. The sampling
  constants \<open>temperature\<close> and \<open>top_p\<close> of the body are fixed floating-point numbers and are
  left out.
\<close>

record request =
  url :: string
  api_key :: "string option"
  system_content :: string
  user_content :: string
  max_tokens :: int
  timeout :: nat

record response =
  status_code :: nat
  reason :: string
  json_result :: "py_exception + json"

datatype post_outcome = PostRaises py_exception | PostReturns response

fun decimal :: "nat \<Rightarrow> string" where
  "decimal n =
     (if n < 10 then [char_of (48 + n)] else decimal (n div 10) @ [char_of (48 + n mod 10)])"

declare decimal.simps [simp del]

text \<open>\<open>response.raise_for_status()\<close> of the \<open>requests\<close> library: \<open>HTTPError\<close> for 4xx and 5xx.\<close>

definition raise_for_status :: "string \<Rightarrow> response \<Rightarrow> py_exception + unit" where
  "raise_for_status u r =
     (if 400 \<le> status_code r \<and> status_code r < 500
      then Inl (Exc RequestException
                 (decimal (status_code r) @ '' Client Error: '' @ reason r @ '' for url: '' @ u))
      else if 500 \<le> status_code r \<and> status_code r < 600
      then Inl (Exc RequestException
                 (decimal (status_code r) @ '' Server Error: '' @ reason r @ '' for url: '' @ u))
      else Inr ())"

text \<open>\<open>v['key']\<close>, \<open>v[0]\<close> and \<open>v.strip()\<close> on a parsed value, with the texts of CPython 3.11.\<close>

definition not_subscriptable :: "json \<Rightarrow> py_exception" where
  "not_subscriptable v = Exc TypeError (quote (type_name v) @ '' object is not subscriptable'')"

fun getitem_key :: "json \<Rightarrow> string \<Rightarrow> py_exception + json" where
  "getitem_key (JObj kvs) k =
     (case map_of kvs k of None \<Rightarrow> Inl (Exc KeyError (quote k)) | Some v \<Rightarrow> Inr v)"
| "getitem_key (JArr xs) k = Inl (Exc TypeError ''list indices must be integers or slices, not str'')"
| "getitem_key (JStr s) k =
     Inl (Exc TypeError (''string indices must be integers, not '' @ quote ''str''))"
| "getitem_key v k = Inl (not_subscriptable v)"

definition utf8_len :: "char \<Rightarrow> nat" where
  "utf8_len c =
     (let n = (of_char c :: nat)
      in if n < 192 then 1 else if n < 224 then 2 else if n < 240 then 3 else 4)"

fun getitem_0 :: "json \<Rightarrow> py_exception + json" where
  "getitem_0 (JArr []) = Inl (Exc IndexError ''list index out of range'')"
| "getitem_0 (JArr (x # xs)) = Inr x"
| "getitem_0 (JStr []) = Inl (Exc IndexError ''string index out of range'')"
| "getitem_0 (JStr (c # cs)) = Inr (JStr (take (utf8_len c) (c # cs)))"
| "getitem_0 (JObj kvs) = Inl (Exc KeyError ''0'')"
| "getitem_0 v = Inl (not_subscriptable v)"

text \<open>
  The whitespace of \<open>str.isspace\<close>, each code point in UTF-8: U+0009 to U+000D, U+001C to
  U+0020, U+0085, U+00A0, U+1680, U+2000 to U+200A, U+2028, U+2029, U+202F, U+205F, U+3000.
\<close>

definition whitespace :: "string list" where
  "whitespace =
     [[CHR 0x09], [CHR 0x0A], [CHR 0x0B], [CHR 0x0C], [CHR 0x0D],
      [CHR 0x1C], [CHR 0x1D], [CHR 0x1E], [CHR 0x1F], [CHR 0x20],
      [CHR 0xC2, CHR 0x85], [CHR 0xC2, CHR 0xA0], [CHR 0xE1, CHR 0x9A, CHR 0x80],
      [CHR 0xE2, CHR 0x80, CHR 0x80], [CHR 0xE2, CHR 0x80, CHR 0x81],
      [CHR 0xE2, CHR 0x80, CHR 0x82], [CHR 0xE2, CHR 0x80, CHR 0x83],
      [CHR 0xE2, CHR 0x80, CHR 0x84], [CHR 0xE2, CHR 0x80, CHR 0x85],
      [CHR 0xE2, CHR 0x80, CHR 0x86], [CHR 0xE2, CHR 0x80, CHR 0x87],
      [CHR 0xE2, CHR 0x80, CHR 0x88], [CHR 0xE2, CHR 0x80, CHR 0x89],
      [CHR 0xE2, CHR 0x80, CHR 0x8A], [CHR 0xE2, CHR 0x80, CHR 0xA8],
      [CHR 0xE2, CHR 0x80, CHR 0xA9], [CHR 0xE2, CHR 0x80, CHR 0xAF],
      [CHR 0xE2, CHR 0x81, CHR 0x9F], [CHR 0xE3, CHR 0x80, CHR 0x80]]"

text \<open>The number of bytes of the text that one of the given sequences takes at its start.\<close>

definition starts_with_len :: "string list \<Rightarrow> string \<Rightarrow> nat" where
  "starts_with_len ws s = (case find (\<lambda>w. prefix w s) ws of None \<Rightarrow> 0 | Some w \<Rightarrow> length w)"

fun lstrip_by :: "string list \<Rightarrow> string \<Rightarrow> string" where
  "lstrip_by ws [] = []"
| "lstrip_by ws (c # cs) =
     (if starts_with_len ws (c # cs) = 0 then c # cs
      else lstrip_by ws (drop (starts_with_len ws (c # cs) - 1) cs))"

text \<open>\<open>str.strip()\<close>: the whitespace at both ends is removed.\<close>

definition strip :: "string \<Rightarrow> string" where
  "strip s = rev (lstrip_by (map rev whitespace) (rev (lstrip_by whitespace s)))"

fun strip_method :: "json \<Rightarrow> py_exception + string" where
  "strip_method (JStr s) = Inr (strip s)"
| "strip_method v = Inl (no_attribute v ''strip'')"

text \<open>\<open>result['choices'][0]['message']['content'].strip()\<close>.\<close>

definition extract_content :: "json \<Rightarrow> py_exception + string" where
  "extract_content result =
     bind_exc (getitem_key result ''choices'') (\<lambda>choices.
     bind_exc (getitem_0 choices) (\<lambda>choice.
     bind_exc (getitem_key choice ''message'') (\<lambda>message.
     bind_exc (getitem_key message ''content'') strip_method)))"

definition warning_marker :: string where
  "warning_marker = [CHR 0xE2, CHR 0x9A, CHR 0xA0, CHR 0xEF, CHR 0xB8, CHR 0x8F]"

definition not_configured_message :: string where
  "not_configured_message =
     warning_marker @
     '' Azure OpenAI not configured. Please set your API credentials in .env file.''"

definition build_request :: "config \<Rightarrow> string \<Rightarrow> int \<Rightarrow> request" where
  "build_request cfg prompt mt =
     \<lparr>url = format_env (AZURE_OPENAI_ENDPOINT cfg) @ ''/openai/deployments/'' @
             AZURE_OPENAI_DEPLOYMENT_NAME cfg @ ''/chat/completions?api-version='' @
             AZURE_OPENAI_API_VERSION,
      api_key = AZURE_OPENAI_API_KEY cfg,
      system_content =
        ''You are a helpful assistant that explains Indian government schemes in simple, '' @
        ''non-legal language. Be concise and clear.'',
      user_content = prompt,
      max_tokens = mt,
      timeout = 10\<rparr>"

text \<open>The body of the \<open>try\<close> statement, from the outcome of the call on.\<close>

definition read_response :: "string \<Rightarrow> post_outcome \<Rightarrow> py_exception + string" where
  "read_response u outcome =
     (case outcome of
        PostRaises e \<Rightarrow> Inl e
      | PostReturns r \<Rightarrow>
          bind_exc (raise_for_status u r) (\<lambda>_.
          bind_exc (json_result r) extract_content))"

text \<open>
  The two handlers: \<open>except requests.exceptions.RequestException\<close>, then \<open>except Exception\<close>.
\<close>

definition handle :: "py_exception \<Rightarrow> string" where
  "handle e =
     (if exc_cls e = RequestException
      then warning_marker @ '' Error calling Azure OpenAI: '' @ exc_str e
      else warning_marker @ '' Unexpected error: '' @ exc_str e)"

text \<open>
  The network is a function from the request to the outcome of the call; the state is the
  list of requests sent.
\<close>

definition call_azure_openai ::
  "config \<Rightarrow> (request \<Rightarrow> post_outcome) \<Rightarrow> string \<Rightarrow> int \<Rightarrow> request list \<Rightarrow> string \<times> request list" where
  "call_azure_openai cfg post prompt mt sent =
     (if \<not> configured cfg then (not_configured_message, sent)
      else let req = build_request cfg prompt mt
           in (case read_response (url req) (post req) of
                 Inr text \<Rightarrow> text
               | Inl e \<Rightarrow> handle e,
               sent @ [req]))"

definition newline :: string where
  "newline = [CHR 0x0A]"

definition prompt_text :: "string \<Rightarrow> string \<Rightarrow> string \<Rightarrow> string \<Rightarrow> string \<Rightarrow> string" where
  "prompt_text name ministry beneficiary benefit user_profile =
     newline @
     ''    Scheme Name: '' @ name @ newline @
     ''    Ministry: '' @ ministry @ newline @
     ''    Beneficiary Type: '' @ beneficiary @ newline @
     ''    Benefit: '' @ benefit @ newline @
     ''    '' @ newline @
     ''    User Profile: '' @ user_profile @ newline @
     ''    '' @ newline @
     ''    Based on the scheme details and user profile:'' @ newline @
     ''    1. Briefly explain (2-3 sentences) why this user MIGHT be eligible'' @ newline @
     ''    2. Mention any potential eligibility gaps'' @ newline @
     ''    3. Suggest next steps'' @ newline @
     ''    '' @ newline @
     ''    Keep language simple and non-legal.'' @ newline @
     ''    ''"

definition build_prompt :: "scheme \<Rightarrow> string \<Rightarrow> py_exception + string" where
  "build_prompt scheme user_profile =
     bind_exc (getitem scheme ''name'') (\<lambda>name.
     bind_exc (getitem scheme ''ministry'') (\<lambda>ministry.
     bind_exc (getitem scheme ''beneficiary'') (\<lambda>beneficiary.
     bind_exc (getitem scheme ''benefit'') (\<lambda>benefit.
       Inr (prompt_text (format name) (format ministry) (format beneficiary) (format benefit)
              user_profile)))))"

definition generate_eligibility_explanation ::
  "config \<Rightarrow> (request \<Rightarrow> post_outcome) \<Rightarrow> scheme \<Rightarrow> string \<Rightarrow> request list
     \<Rightarrow> (py_exception + string \<times> int) \<times> request list" where
  "generate_eligibility_explanation cfg post scheme user_profile sent =
     (case build_prompt scheme user_profile of
        Inl e \<Rightarrow> (Inl e, sent)
      | Inr prompt \<Rightarrow>
          (case call_azure_openai cfg post prompt 150 sent of
             (explanation, sent') \<Rightarrow>
               (bind_exc (calculate_match_score scheme user_profile) (\<lambda>match_score.
                  Inr (explanation, match_score)),
                sent')))"

text \<open>
  The failures of the text-generation call, in the words of the specification: the
  credentials are missing, the call raises (network error, timeout), the response is not a
  2xx response, or its payload is malformed (it is not JSON or the content cannot be read
  from it).
\<close>

definition non_2xx :: "response \<Rightarrow> bool" where
  "non_2xx r = (status_code r < 200 \<or> 300 \<le> status_code r)"

definition payload_malformed :: "response \<Rightarrow> bool" where
  "payload_malformed r = (case json_result r of Inl e \<Rightarrow> True | Inr j \<Rightarrow> isl (extract_content j))"

definition call_fails :: "config \<Rightarrow> post_outcome \<Rightarrow> bool" where
  "call_fails cfg outcome =
     (\<not> configured cfg \<or>
      (case outcome of PostRaises e \<Rightarrow> True | PostReturns r \<Rightarrow> non_2xx r \<or> payload_malformed r))"

text \<open>The same with the 4xx and 5xx responses in place of the responses that are not 2xx.\<close>

definition error_status :: "response \<Rightarrow> bool" where
  "error_status r = (400 \<le> status_code r \<and> status_code r < 600)"

definition call_fails_on_error :: "config \<Rightarrow> post_outcome \<Rightarrow> bool" where
  "call_fails_on_error cfg outcome =
     (\<not> configured cfg \<or>
      (case outcome of
         PostRaises e \<Rightarrow> True
       | PostReturns r \<Rightarrow> error_status r \<or> payload_malformed r))"

text \<open>
  A fallback string for an exception: the warning marker, one of the two labels of the
  handlers, and the text of the exception.
\<close>

definition fallback_for :: "py_exception \<Rightarrow> string \<Rightarrow> bool" where
  "fallback_for e explanation =
     (explanation = warning_marker @ '' Error calling Azure OpenAI: '' @ exc_str e \<or>
      explanation = warning_marker @ '' Unexpected error: '' @ exc_str e)"

text \<open>
  The explanation describes the failure of the call: it is the configuration warning when
  the credentials are missing, and otherwise a fallback string for the first exception met:
  the one of the call, the \<open>HTTPError\<close> of the status, the one of decoding the body, or the
  one of reading the content from the payload.
\<close>

definition describes_failure :: "config \<Rightarrow> string \<Rightarrow> post_outcome \<Rightarrow> string \<Rightarrow> bool" where
  "describes_failure cfg u outcome explanation =
     (if \<not> configured cfg then explanation = not_configured_message
      else case outcome of
             PostRaises e \<Rightarrow> fallback_for e explanation
           | PostReturns r \<Rightarrow>
               (case raise_for_status u r of
                  Inl e \<Rightarrow> fallback_for e explanation
                | Inr ok \<Rightarrow>
                    (case json_result r of
                       Inl e \<Rightarrow> fallback_for e explanation
                     | Inr j \<Rightarrow>
                         (case extract_content j of
                            Inl e \<Rightarrow> fallback_for e explanation
                          | Inr content \<Rightarrow> False))))"

text \<open>The request that the generator sends for a well-formed scheme.\<close>

definition sent_request :: "config \<Rightarrow> scheme \<Rightarrow> string \<Rightarrow> request" where
  "sent_request cfg scheme user_profile =
     build_request cfg
       (prompt_text (str_field scheme ''name'') (str_field scheme ''ministry'')
          (str_field scheme ''beneficiary'') (str_field scheme ''benefit'') user_profile) 150"

text \<open>Example configurations and networks.\<close>

definition azure_cfg :: config where
  "azure_cfg =
     \<lparr>AZURE_OPENAI_API_KEY = Some ''0123456789abcdef'',
      AZURE_OPENAI_ENDPOINT = Some ''https://example.openai.azure.com'',
      AZURE_OPENAI_DEPLOYMENT_NAME = ''gpt-35-turbo''\<rparr>"

definition no_cfg :: config where
  "no_cfg =
     \<lparr>AZURE_OPENAI_API_KEY = None, AZURE_OPENAI_ENDPOINT = None,
      AZURE_OPENAI_DEPLOYMENT_NAME = ''gpt-35-turbo''\<rparr>"

definition completion :: json where
  "completion =
     JObj [(''choices'', JArr [JObj [(''message'', JObj [(''content'', JStr ''Eligible'')])]])]"

definition multiple_choices_post :: "request \<Rightarrow> post_outcome" where
  "multiple_choices_post req =
     PostReturns \<lparr>status_code = 300, reason = ''Multiple Choices'', json_result = Inr completion\<rparr>"

definition unavailable_post :: "request \<Rightarrow> post_outcome" where
  "unavailable_post req =
     PostReturns \<lparr>status_code = 503, reason = ''Service Unavailable'',
                  json_result = Inl (Exc RequestException ''Expecting value: line 1 column 1 (char 0)'')\<rparr>"

section \<open>Properties of the match scorer\<close>

lemma sum_list_ones: "sum_list (map (\<lambda>k. 1) xs) = int (length xs)"
  by (induction xs) simp_all

lemma distinct_keywords: "distinct keywords_list"
  by (simp add: keywords_list_def)

lemma length_keywords: "length keywords_list = 15"
  by (simp add: keywords_list_def)

lemma card_filter_distinct: "distinct xs \<Longrightarrow> card {k \<in> set xs. P k} = length (filter P xs)"
proof -
  assume d: "distinct xs"
  have "card (set (filter P xs)) = length (filter P xs)"
    using d by (intro distinct_card) simp
  then show ?thesis by (simp only: set_filter)
qed

lemma matches_length:
  "matches a b = int (length (filter (\<lambda>k. sublist k a \<and> sublist k b) keywords_list))"
  by (simp add: matches_def sum_list_ones)

lemma matches_bounds: "0 \<le> matches a b \<and> matches a b \<le> 15"
proof -
  have "length (filter (\<lambda>k. sublist k a \<and> sublist k b) keywords_list) \<le> length keywords_list"
    by (rule length_filter_le)
  then show ?thesis by (simp add: matches_length length_keywords)
qed

lemma getitem_str: "is_str s k \<Longrightarrow> getitem s k = Inr (PyStr (str_field s k))"
  by (auto simp: is_str_def getitem_def str_field_def split: option.splits pyval.splits)

lemma scheme_text_str:
  assumes "is_str s ''name''" "is_str s ''beneficiary''" "is_str s ''category''"
  shows "scheme_text s =
    Inr (lower (str_field s ''name'' @ '' '' @ str_field s ''beneficiary'' @ '' '' @
                str_field s ''category''))"
  using assms by (simp add: scheme_text_def bind_exc_def getitem_str)

lemma score_of_text:
  "scheme_text s = Inr t \<Longrightarrow>
   calculate_match_score s p = Inr (min 95 (50 + matches t (lower p) * 5))"
  by (simp add: calculate_match_score_def bind_exc_def Let_def)

lemma lower_append: "lower (a @ b) = lower a @ lower b"
  by (simp add: lower_def)

lemma lower_Cons: "lower (c # b) = lower_char c # lower b"
  by (simp add: lower_def)

lemma lower_lower_char: "lower_char (lower_char c) = lower_char c"
  by (auto simp: lower_char_def Let_def)

lemma lower_upper_char: "lower_char (upper_char c) = lower_char c"
  by (auto simp: lower_char_def upper_char_def Let_def)

lemma case_changed_lower: "case_changed s t \<Longrightarrow> lower t = lower s"
  unfolding case_changed_def lower_def
  by (induction s t rule: list_all2_induct) (auto simp: lower_lower_char lower_upper_char)

text \<open>
  C1, as amended. For every scheme whose \<open>name\<close>, \<open>beneficiary\<close> and \<open>category\<close> are strings
  and every profile, the score is \<open>min(95, 50 + 5 * match_count)\<close>, where \<open>match_count\<close> is
  the number of vocabulary keywords present in both the lowercased text
  \<open>name + " " + beneficiary + " " + category\<close> and the lowercased profile.
\<close>

theorem score_joined_formula:
  assumes "is_str s ''name''" "is_str s ''beneficiary''" "is_str s ''category''"
  shows "calculate_match_score s p =
    Inr (min 95 (50 + 5 * int (joined_match_count (str_field s ''name'')
        (str_field s ''beneficiary'') (str_field s ''category'') p)))"
proof -
  let ?t = "lower (str_field s ''name'' @ '' '' @ str_field s ''beneficiary'' @ '' '' @
                   str_field s ''category'')"
  have "scheme_text s = Inr ?t" using assms by (rule scheme_text_str)
  then have "calculate_match_score s p = Inr (min 95 (50 + matches ?t (lower p) * 5))"
    by (rule score_of_text)
  moreover have "matches ?t (lower p) = int (joined_match_count (str_field s ''name'')
       (str_field s ''beneficiary'') (str_field s ''category'') p)"
    unfolding joined_match_count_def matches_length
    by (simp only: card_filter_distinct [OF distinct_keywords])
  ultimately show ?thesis by (simp add: mult.commute)
qed

theorem score_joined_formula_witness:
  "is_str kisan ''name'' \<and> is_str kisan ''beneficiary'' \<and> is_str kisan ''category'' \<and>
   calculate_match_score kisan ''35 years old farmer'' = Inr 55 \<and>
   joined_match_count ''Kisan Samman'' ''farmer'' ''Farmers'' ''35 years old farmer'' = 1"
proof -
  have h: "is_str kisan ''name''" "is_str kisan ''beneficiary''" "is_str kisan ''category''"
    by code_simp+
  have c: "calculate_match_score kisan ''35 years old farmer'' = Inr 55"
    by code_simp
  have f: "str_field kisan ''name'' = ''Kisan Samman''"
    "str_field kisan ''beneficiary'' = ''farmer''"
    "str_field kisan ''category'' = ''Farmers''"
    by code_simp+
  from score_joined_formula [OF h, of "''35 years old farmer''"]
  have "joined_match_count ''Kisan Samman'' ''farmer'' ''Farmers'' ''35 years old farmer'' = 1"
    unfolding c f by simp
  with h c show ?thesis by simp
qed

text \<open>
  C1 as stated fails: with the fields concatenated directly, \<open>sm\<close>, \<open>all\<close> and \<open>x\<close> give
  \<open>smallx\<close>, which holds the keyword \<open>small\<close>, so the stated formula gives 55 for the profile
  \<open>small\<close>; the code scores the text \<open>sm all x\<close> and returns 50.
\<close>

theorem score_concatenation_counterexample:
  "calculate_match_score boundary ''small''
     \<noteq> Inr (min 95 (50 + 5 * int (spec_match_count ''sm'' ''all'' ''x'' ''small'')))"
proof -
  have a: "calculate_match_score boundary ''small'' = Inr 50"
    by code_simp
  have "length (filter (\<lambda>k. sublist k (lower (''sm'' @ ''all'' @ ''x'')) \<and>
                             sublist k (lower ''small'')) keywords_list) = 1"
    by code_simp
  then have b: "spec_match_count ''sm'' ''all'' ''x'' ''small'' = 1"
    unfolding spec_match_count_def by (simp only: card_filter_distinct [OF distinct_keywords])
  show ?thesis unfolding a b by simp
qed

text \<open>
  C6. For every scheme whose \<open>name\<close>, \<open>beneficiary\<close> and \<open>category\<close> are strings and every
  profile, the empty one included, the scorer returns a score between 50 and 95.
\<close>

theorem score_in_range:
  assumes "is_str s ''name''" "is_str s ''beneficiary''" "is_str s ''category''"
  shows "\<exists>n. calculate_match_score s p = Inr n \<and> 50 \<le> n \<and> n \<le> 95"
proof -
  obtain t where t: "scheme_text s = Inr t" using scheme_text_str [OF assms] by blast
  have "0 \<le> matches t (lower p)" using matches_bounds by blast
  then have "50 \<le> min 95 (50 + matches t (lower p) * 5) \<and>
             min 95 (50 + matches t (lower p) * 5) \<le> 95"
    by simp
  then show ?thesis using score_of_text [OF t] by simp
qed

theorem score_in_range_witness:
  "is_str kisan ''name'' \<and> is_str kisan ''beneficiary'' \<and> is_str kisan ''category'' \<and>
   (\<exists>n. calculate_match_score kisan [] = Inr n \<and> 50 \<le> n \<and> n \<le> 95)"
proof -
  have h: "is_str kisan ''name''" "is_str kisan ''beneficiary''" "is_str kisan ''category''"
    by code_simp+
  from score_in_range [OF h, of "[]"] h show ?thesis by simp
qed

text \<open>
  C7. Take two scheme/profile pairs on which the scorer builds its texts, the second with at
  least as many shared keyword hits (the count \<open>matches\<close>) as the first. Then the score of
  the second is at least the score of the first, and it does not exceed 95.
\<close>

theorem score_monotone:
  assumes "scheme_text s1 = Inr t1" "scheme_text s2 = Inr t2"
    and "matches t1 (lower p1) \<le> matches t2 (lower p2)"
  shows "\<exists>n1 n2. calculate_match_score s1 p1 = Inr n1 \<and> calculate_match_score s2 p2 = Inr n2
           \<and> n1 \<le> n2 \<and> n2 \<le> 95"
  using assms by (simp add: score_of_text)

theorem score_monotone_witness:
  "scheme_text household = Inr ''household support families welfare'' \<and>
   scheme_text kisan = Inr ''kisan samman farmer farmers'' \<and>
   matches ''household support families welfare'' (lower ''student'')
     \<le> matches ''kisan samman farmer farmers'' (lower ''35 years old farmer'') \<and>
   (\<exists>n1 n2. calculate_match_score household ''student'' = Inr n1 \<and>
      calculate_match_score kisan ''35 years old farmer'' = Inr n2 \<and> n1 \<le> n2 \<and> n2 \<le> 95)"
proof -
  have h: "scheme_text household = Inr ''household support families welfare''"
    "scheme_text kisan = Inr ''kisan samman farmer farmers''"
    "matches ''household support families welfare'' (lower ''student'')
     \<le> matches ''kisan samman farmer farmers'' (lower ''35 years old farmer'')"
    by code_simp+
  from score_monotone [OF h] h show ?thesis by simp
qed

text \<open>
  C8, as amended. Changing the case of any ASCII letters of the scheme's \<open>name\<close>,
  \<open>beneficiary\<close> or \<open>category\<close>, or of the profile text, leaves the score unchanged.
\<close>

theorem score_case_insensitive:
  assumes "case_changed name name'" "case_changed beneficiary beneficiary'"
    "case_changed category category'" "case_changed profile profile'"
  shows "calculate_match_score
           (s(''name'' \<mapsto> PyStr name', ''beneficiary'' \<mapsto> PyStr beneficiary',
              ''category'' \<mapsto> PyStr category')) profile'
       = calculate_match_score
           (s(''name'' \<mapsto> PyStr name, ''beneficiary'' \<mapsto> PyStr beneficiary,
              ''category'' \<mapsto> PyStr category)) profile"
proof -
  have l: "lower name' = lower name" "lower beneficiary' = lower beneficiary"
    "lower category' = lower category" "lower profile' = lower profile"
    using assms by (simp_all add: case_changed_lower)
  show ?thesis
    by (simp add: calculate_match_score_def scheme_text_def getitem_def bind_exc_def
        lower_append lower_Cons l)
qed

theorem score_case_insensitive_witness:
  "case_changed ''Kisan Samman'' ''KISAN samman'' \<and> case_changed ''farmer'' ''Farmer'' \<and>
   case_changed ''Farmers'' ''FARMERS'' \<and>
   case_changed ''35 years old farmer'' ''35 Years Old FARMER'' \<and>
   calculate_match_score
     (Map.empty(''name'' \<mapsto> PyStr ''KISAN samman'', ''beneficiary'' \<mapsto> PyStr ''Farmer'',
                ''category'' \<mapsto> PyStr ''FARMERS''))
     ''35 Years Old FARMER'' = Inr 55"
proof -
  have h: "case_changed ''Kisan Samman'' ''KISAN samman''" "case_changed ''farmer'' ''Farmer''"
    "case_changed ''Farmers'' ''FARMERS''"
    "case_changed ''35 years old farmer'' ''35 Years Old FARMER''"
    by code_simp+
  have c: "calculate_match_score
     (Map.empty(''name'' \<mapsto> PyStr ''Kisan Samman'', ''beneficiary'' \<mapsto> PyStr ''farmer'',
                ''category'' \<mapsto> PyStr ''Farmers''))
     ''35 years old farmer'' = Inr 55"
    by code_simp
  from score_case_insensitive [OF h, of Map.empty] c h show ?thesis by simp
qed

text \<open>
  C8 as stated fails outside ASCII: changing the long s of the name \<open>(long s)enior\<close> to its
  uppercase \<open>S\<close> changes the score for the profile \<open>senior\<close> from 50 to 55, because \<open>lower\<close>
  keeps the long s and turns \<open>S\<close> into \<open>s\<close>.
\<close>

theorem score_long_s_counterexample:
  "case_variant (long_s @ ''enior'') ''Senior'' \<and>
   calculate_match_score (care (long_s @ ''enior'')) ''senior'' = Inr 50 \<and>
   calculate_match_score (care ''Senior'') ''senior'' = Inr 55"
  by code_simp

text \<open>
  C10. Keyword presence is substring containment, not membership among whole words. For the
  scheme \<open>household\<close> and the profile \<open>head of a household\<close> the only keyword contained in
  both texts is \<open>old\<close>, inside the word \<open>household\<close>; it is a whole word of neither text,
  and no keyword is a whole word of both. The score is 55, above the 50 that the same scheme
  gets for a profile without the keyword.
\<close>

theorem substring_not_whole_word:
  "scheme_text household = Inr ''household support families welfare'' \<and>
   filter (\<lambda>k. sublist k ''household support families welfare'' \<and>
               sublist k (lower ''head of a household'')) keywords_list = [''old''] \<and>
   calculate_match_score household ''head of a household'' = Inr 55 \<and>
   calculate_match_score household ''head of a family'' = Inr 50 \<and>
   split_words [] ''household support families welfare'' =
     [''household'', ''support'', ''families'', ''welfare''] \<and>
   split_words [] (lower ''head of a household'') = [''head'', ''of'', ''a'', ''household''] \<and>
   sublist ''old'' ''household'' \<and>
   whole_word ''old'' ''household support families welfare'' = False \<and>
   whole_word ''old'' (lower ''head of a household'') = False \<and>
   filter (\<lambda>k. whole_word k ''household support families welfare'' \<and>
               whole_word k (lower ''head of a household'')) keywords_list = []"
  by code_simp

section \<open>Properties of the filter engine\<close>

lemma filter_exc_total:
  assumes "\<And>x. x \<in> set xs \<Longrightarrow> p x = Inr (q x)"
  shows "filter_exc p xs = Inr (filter q xs)"
  using assms by (induction xs) (simp_all add: bind_exc_def)

lemma occurs_ci_sublist: "occurs_ci q t \<longleftrightarrow> sublist (lower q) (lower t)"
proof
  assume "occurs_ci q t"
  then obtain ps u ss where "t = ps @ u @ ss" "lower u = lower q"
    unfolding occurs_ci_def by blast
  then have "lower t = lower ps @ lower q @ lower ss" by (simp add: lower_append)
  then show "sublist (lower q) (lower t)" unfolding sublist_def by blast
next
  assume "sublist (lower q) (lower t)"
  then obtain ps ss where "map lower_char t = ps @ (map lower_char q @ ss)"
    unfolding sublist_def lower_def by blast
  then obtain a r where a: "t = a @ r" "map lower_char q @ ss = map lower_char r"
    unfolding map_eq_append_conv by blast
  from a(2) obtain u b where u: "r = u @ b" "map lower_char q = map lower_char u"
    unfolding append_eq_map_conv by blast
  from a(1) u show "occurs_ci q t" unfolding occurs_ci_def lower_def by metis
qed

lemma field_contains_str:
  "is_str s k \<Longrightarrow> field_contains (lower q) s k = Inr (occurs_ci q (str_field s k))"
  by (simp add: field_contains_def getitem_str bind_exc_def occurs_ci_sublist)

lemma field_equals_str:
  "is_str s k \<Longrightarrow> field_equals k w s = Inr (str_field s k = w)"
  by (simp add: field_equals_def getitem_str bind_exc_def)

lemma well_formed_fields:
  "well_formed s \<Longrightarrow> is_str s ''name'' \<and> is_str s ''description'' \<and> is_str s ''ministry'' \<and>
     is_str s ''beneficiary'' \<and> is_str s ''benefit'' \<and> is_str s ''category''"
  by (simp add: well_formed_def)

lemma search_condition_wf:
  assumes "well_formed s"
  shows "search_condition (lower q) s =
    Inr (occurs_ci q (str_field s ''name'') \<or> occurs_ci q (str_field s ''description'') \<or>
         occurs_ci q (str_field s ''ministry'') \<or> occurs_ci q (str_field s ''beneficiary''))"
  using well_formed_fields [OF assms]
  by (simp add: search_condition_def field_contains_str or_else_def bind_exc_def)

lemma stage_equals:
  assumes "list_all well_formed xs" "k \<in> {''ministry'', ''beneficiary'', ''category''}"
  shows "filter_exc (field_equals k w) xs = Inr (filter (\<lambda>s. str_field s k = w) xs)"
proof (rule filter_exc_total)
  fix s assume "s \<in> set xs"
  then have "well_formed s" using assms(1) by (simp add: list_all_iff)
  then have "is_str s k" using assms(2) well_formed_fields by blast
  then show "field_equals k w s = Inr (str_field s k = w)" by (rule field_equals_str)
qed

lemma stage_search:
  assumes "list_all well_formed xs"
  shows "filter_exc (search_condition (lower q)) xs =
    Inr (filter (\<lambda>s. occurs_ci q (str_field s ''name'') \<or> occurs_ci q (str_field s ''description'') \<or>
         occurs_ci q (str_field s ''ministry'') \<or> occurs_ci q (str_field s ''beneficiary'')) xs)"
proof (rule filter_exc_total)
  fix s assume "s \<in> set xs"
  then have "well_formed s" using assms by (simp add: list_all_iff)
  then show "search_condition (lower q) s =
    Inr (occurs_ci q (str_field s ''name'') \<or> occurs_ci q (str_field s ''description'') \<or>
         occurs_ci q (str_field s ''ministry'') \<or> occurs_ci q (str_field s ''beneficiary''))"
    by (rule search_condition_wf)
qed

lemma list_all_filter: "list_all P xs \<Longrightarrow> list_all P (filter Q xs)"
  by (simp add: list_all_iff)


lemma ascii_text_Cons: "ascii_text (c # s) \<longleftrightarrow> (of_char c :: nat) < 128 \<and> ascii_text s"
  by (simp add: ascii_text_def)

lemma ascii_text_append: "ascii_text (a @ b) \<longleftrightarrow> ascii_text a \<and> ascii_text b"
  by (simp add: ascii_text_def)

lemma long_s_not_ascii: "prefix long_s (a # s) \<Longrightarrow> \<not> (of_char a :: nat) < 128"
  by (auto simp: long_s_def)

lemma case_variant_ascii:
  "ascii_text u \<Longrightarrow> ascii_text q \<Longrightarrow> case_variant u q \<longleftrightarrow> lower u = lower q"
proof (induction u q rule: case_variant.induct)
  case 1
  then show ?case by (simp add: lower_def)
next
  case (2 b t)
  then show ?case by (simp add: lower_def)
next
  case (3 a s)
  then show ?case by (simp add: lower_def)
next
  case (4 a s b t)
  from "4.prems" have a: "(of_char a :: nat) < 128" "ascii_text s"
    and b: "(of_char b :: nat) < 128" "ascii_text t"
    by (simp_all add: ascii_text_Cons)
  have na: "\<not> prefix long_s (a # s)" using a(1) long_s_not_ascii by blast
  have nb: "\<not> prefix long_s (b # t)" using b(1) long_s_not_ascii by blast
  have "case_variant (a # s) (b # t) \<longleftrightarrow> lower_char a = lower_char b \<and> case_variant s t"
    using na nb by simp
  also have "\<dots> \<longleftrightarrow> lower_char a = lower_char b \<and> lower s = lower t"
    using "4.IH"(1) a(2) b(2) by blast
  finally show ?case by (simp add: lower_Cons)
qed

lemma occurs_caseless_ascii:
  assumes "ascii_text q" "ascii_text t"
  shows "occurs_caseless q t \<longleftrightarrow> occurs_ci q t"
proof -
  have "\<And>ps u ss. t = ps @ u @ ss \<Longrightarrow> case_variant u q \<longleftrightarrow> lower u = lower q"
    using assms by (simp add: ascii_text_append case_variant_ascii)
  then show ?thesis unfolding occurs_caseless_def occurs_ci_def by blast
qed

lemma ascii_fields_each:
  "ascii_fields s \<Longrightarrow> ascii_text (str_field s ''name'') \<and> ascii_text (str_field s ''description'') \<and>
     ascii_text (str_field s ''ministry'') \<and> ascii_text (str_field s ''beneficiary'')"
  by (simp add: ascii_fields_def)

lemma filter_schemes_lower:
  assumes "list_all well_formed schemes"
  shows "filter_schemes schemes query ministry beneficiary category =
     Inr (filter (\<lambda>s.
       (query = [] \<or> occurs_ci query (str_field s ''name'') \<or>
          occurs_ci query (str_field s ''description'') \<or>
          occurs_ci query (str_field s ''ministry'') \<or>
          occurs_ci query (str_field s ''beneficiary'')) \<and>
       (ministry = ''All Ministries'' \<or> str_field s ''ministry'' = ministry) \<and>
       (beneficiary = ''All Types'' \<or> str_field s ''beneficiary'' = beneficiary) \<and>
       (category = ''All Categories'' \<or> str_field s ''category'' = category)) schemes)"
proof -
  define P1 where "P1 = (\<lambda>s. query = [] \<or> occurs_ci query (str_field s ''name'') \<or>
      occurs_ci query (str_field s ''description'') \<or> occurs_ci query (str_field s ''ministry'') \<or>
      occurs_ci query (str_field s ''beneficiary''))"
  define P2 where "P2 = (\<lambda>s. ministry = ''All Ministries'' \<or> str_field s ''ministry'' = ministry)"
  define P3 where "P3 = (\<lambda>s. beneficiary = ''All Types'' \<or> str_field s ''beneficiary'' = beneficiary)"
  define P4 where "P4 = (\<lambda>s. category = ''All Categories'' \<or> str_field s ''category'' = category)"
  have s1: "(if query \<noteq> [] then filter_exc (search_condition (lower query)) schemes else Inr schemes)
      = Inr (filter P1 schemes)"
    using stage_search [OF assms, of query] by (simp add: P1_def)
  have w1: "list_all well_formed (filter P1 schemes)"
    using assms by (rule list_all_filter)
  have s2: "(if ministry \<noteq> ''All Ministries''
             then filter_exc (field_equals ''ministry'' ministry) (filter P1 schemes)
             else Inr (filter P1 schemes)) = Inr (filter P2 (filter P1 schemes))"
    using stage_equals [OF w1, of "''ministry''" ministry] by (simp add: P2_def)
  have w2: "list_all well_formed (filter P2 (filter P1 schemes))"
    using w1 by (rule list_all_filter)
  have s3: "(if beneficiary \<noteq> ''All Types''
             then filter_exc (field_equals ''beneficiary'' beneficiary) (filter P2 (filter P1 schemes))
             else Inr (filter P2 (filter P1 schemes))) = Inr (filter P3 (filter P2 (filter P1 schemes)))"
    using stage_equals [OF w2, of "''beneficiary''" beneficiary] by (simp add: P3_def)
  have w3: "list_all well_formed (filter P3 (filter P2 (filter P1 schemes)))"
    using w2 by (rule list_all_filter)
  have s4: "(if category \<noteq> ''All Categories''
             then filter_exc (field_equals ''category'' category) (filter P3 (filter P2 (filter P1 schemes)))
             else Inr (filter P3 (filter P2 (filter P1 schemes))))
           = Inr (filter P4 (filter P3 (filter P2 (filter P1 schemes))))"
    using stage_equals [OF w3, of "''category''" category] by (simp add: P4_def)
  have run: "filter_schemes schemes query ministry beneficiary category
           = Inr (filter P4 (filter P3 (filter P2 (filter P1 schemes))))"
    unfolding filter_schemes_def by (simp only: s1 s2 s3 s4 bind_exc_def sum.case)
  show ?thesis unfolding run filter_filter
    by (simp add: P1_def P2_def P3_def P4_def conj_ac cong: filter_cong)
qed

text \<open>
  C2, as amended. For every list of well-formed schemes whose name, description, ministry
  and beneficiary are ASCII text, every ASCII query and every ministry, beneficiary and
  category, \<open>filter_schemes\<close> returns, in catalog order, exactly the schemes for which the
  query, when non-empty, occurs case-insensitively in the name, description, ministry or
  beneficiary, and each categorical criterion other than its \<open>All ...\<close> sentinel equals the
  scheme's field.
\<close>

theorem filter_schemes_selects:
  assumes "list_all well_formed schemes" and "list_all ascii_fields schemes"
    and "ascii_text query"
  shows "filter_schemes schemes query ministry beneficiary category =
           Inr (filter (selected query ministry beneficiary category) schemes)"
proof -
  have "\<And>s. s \<in> set schemes \<Longrightarrow>
      occurs_ci query (str_field s ''name'') = occurs_caseless query (str_field s ''name'') \<and>
      occurs_ci query (str_field s ''description'') = occurs_caseless query (str_field s ''description'') \<and>
      occurs_ci query (str_field s ''ministry'') = occurs_caseless query (str_field s ''ministry'') \<and>
      occurs_ci query (str_field s ''beneficiary'') = occurs_caseless query (str_field s ''beneficiary'')"
  proof -
    fix s assume "s \<in> set schemes"
    then have "ascii_fields s" using assms(2) by (simp add: list_all_iff)
    then show "occurs_ci query (str_field s ''name'') = occurs_caseless query (str_field s ''name'') \<and>
      occurs_ci query (str_field s ''description'') = occurs_caseless query (str_field s ''description'') \<and>
      occurs_ci query (str_field s ''ministry'') = occurs_caseless query (str_field s ''ministry'') \<and>
      occurs_ci query (str_field s ''beneficiary'') = occurs_caseless query (str_field s ''beneficiary'')"
      using ascii_fields_each occurs_caseless_ascii [OF assms(3)] by blast
  qed
  then show ?thesis
    unfolding filter_schemes_lower [OF assms(1)] selected_def
    by (auto intro!: filter_cong)
qed

theorem filter_schemes_selects_witness:
  "list_all well_formed [kisan_full, mahila] \<and> list_all ascii_fields [kisan_full, mahila] \<and>
   ascii_text ''WOMEN'' \<and>
   filter (selected ''WOMEN'' ''All Ministries'' ''All Types'' ''Women'') [kisan_full, mahila] = [mahila] \<and>
   filter_schemes [kisan_full, mahila] ''WOMEN'' ''All Ministries'' ''All Types'' ''Women'' = Inr [mahila]"
proof -
  have h: "list_all well_formed [kisan_full, mahila]" "list_all ascii_fields [kisan_full, mahila]"
    "ascii_text ''WOMEN''"
    by code_simp+
  have c: "search_condition (lower ''WOMEN'') kisan_full = Inr False"
    "search_condition (lower ''WOMEN'') mahila = Inr True"
    "field_equals ''category'' ''Women'' mahila = Inr True"
    by code_simp+
  have r: "filter_schemes [kisan_full, mahila] ''WOMEN'' ''All Ministries'' ''All Types'' ''Women''
      = Inr [mahila]"
    by (simp add: filter_schemes_def bind_exc_def c)
  from filter_schemes_selects [OF h, of "''All Ministries''" "''All Types''" "''Women''"] r h
  show ?thesis by simp
qed

text \<open>
  C2 as stated fails outside ASCII. The name of \<open>long_s_scheme\<close> starts with a long s
  followed by \<open>enior\<close>, a case variant of the query \<open>SENIOR\<close>, so the query occurs
  case-insensitively in the name; the code compares \<open>senior\<close> with the lowercased fields,
  where the long s is kept, and returns no scheme.
\<close>

theorem filter_schemes_long_s_counterexample:
  "well_formed long_s_scheme \<and>
   filter_schemes [long_s_scheme] ''SENIOR'' ''All Ministries'' ''All Types'' ''All Categories''
     = Inr [] \<and>
   filter (selected ''SENIOR'' ''All Ministries'' ''All Types'' ''All Categories'') [long_s_scheme]
     = [long_s_scheme]"
proof -
  have w: "well_formed long_s_scheme" by code_simp
  have c: "search_condition (lower ''SENIOR'') long_s_scheme = Inr False" by code_simp
  have r: "filter_schemes [long_s_scheme] ''SENIOR'' ''All Ministries'' ''All Types''
             ''All Categories'' = Inr []"
    by (simp add: filter_schemes_def bind_exc_def c)
  have n: "str_field long_s_scheme ''name'' = [] @ (long_s @ ''enior'') @ '' Care''"
    by code_simp
  have v: "case_variant (long_s @ ''enior'') ''SENIOR''" by code_simp
  have "occurs_caseless ''SENIOR'' (str_field long_s_scheme ''name'')"
    unfolding occurs_caseless_def using n v by blast
  then have "selected ''SENIOR'' ''All Ministries'' ''All Types'' ''All Categories'' long_s_scheme"
    by (simp add: selected_def)
  with w r show ?thesis by simp
qed

text \<open>
  C9. For every scheme list, the empty query with every categorical criterion at its
  \<open>All ...\<close> sentinel returns the list unchanged, in its order.
\<close>

theorem filter_unconstrained:
  "filter_schemes schemes [] ''All Ministries'' ''All Types'' ''All Categories'' = Inr schemes"
  by (simp add: filter_schemes_def bind_exc_def)

section \<open>Properties of the catalog loader\<close>

lemma load_schemes_missing:
  "load_schemes (OpenRaises (Exc FileNotFoundError m)) shown =
     (Inr (JArr []), shown @ [not_found_message])"
  by (simp add: load_schemes_def)

text \<open>
  C3. The claim asks that a missing or malformed catalog gives an empty collection and a
  reported condition, with no exception. On a file whose content is not JSON the loader
  raises: the decoding error of \<open>json.load\<close> is not a \<open>FileNotFoundError\<close>, passes the
  handler, and nothing is reported. The same holds for a document that is not an object.
\<close>

theorem load_schemes_malformed_raises:
  "load_schemes (LoadRaises (Exc JSONDecodeError m)) shown = (Inl (Exc JSONDecodeError m), shown) \<and>
   load_schemes (LoadReturns (JArr xs)) shown = (Inl (no_attribute (JArr xs) ''get''), shown)"
  by (simp add: load_schemes_def no_attribute_def)

section \<open>Properties of the explanation generator\<close>

lemma build_prompt_wf:
  assumes "well_formed scheme"
  shows "build_prompt scheme p =
    Inr (prompt_text (str_field scheme ''name'') (str_field scheme ''ministry'')
          (str_field scheme ''beneficiary'') (str_field scheme ''benefit'') p)"
  using well_formed_fields [OF assms] by (simp add: build_prompt_def bind_exc_def getitem_str)

lemma score_wf:
  assumes "well_formed scheme"
  shows "\<exists>n. calculate_match_score scheme p = Inr n"
proof -
  from well_formed_fields [OF assms] obtain t where "scheme_text scheme = Inr t"
    using scheme_text_str by blast
  then show ?thesis by (simp add: score_of_text)
qed

lemma call_unconfigured:
  "\<not> configured cfg \<Longrightarrow> call_azure_openai cfg post prompt mt sent = (not_configured_message, sent)"
  by (simp add: call_azure_openai_def)

lemma marker_not_configured: "prefix warning_marker not_configured_message"
  by (simp add: not_configured_message_def)

lemma marker_handle: "prefix warning_marker (handle e)"
  by (simp add: handle_def)

lemma raise_for_status_error: "error_status r \<Longrightarrow> isl (raise_for_status u r)"
  by (auto simp: error_status_def raise_for_status_def)

lemma read_response_fails:
  assumes "case outcome of PostRaises e \<Rightarrow> True | PostReturns r \<Rightarrow> error_status r \<or> payload_malformed r"
  shows "isl (read_response u outcome)"
proof (cases outcome)
  case (PostRaises e)
  then show ?thesis by (simp add: read_response_def)
next
  case (PostReturns r)
  with assms have "error_status r \<or> payload_malformed r" by simp
  then show ?thesis
  proof
    assume "error_status r"
    then have "isl (raise_for_status u r)" by (rule raise_for_status_error)
    then show ?thesis using PostReturns
      by (auto simp: read_response_def bind_exc_def split: sum.splits)
  next
    assume "payload_malformed r"
    then show ?thesis using PostReturns
      by (auto simp: read_response_def bind_exc_def payload_malformed_def split: sum.splits)
  qed
qed

lemma call_fallback:
  assumes "call_fails_on_error cfg (post (build_request cfg prompt mt))"
  shows "prefix warning_marker (fst (call_azure_openai cfg post prompt mt sent))"
proof (cases "configured cfg")
  case False
  then show ?thesis by (simp add: call_unconfigured marker_not_configured)
next
  case True
  with assms have "isl (read_response (url (build_request cfg prompt mt))
                          (post (build_request cfg prompt mt)))"
    by (intro read_response_fails) (simp add: call_fails_on_error_def)
  then obtain e where "read_response (url (build_request cfg prompt mt))
                          (post (build_request cfg prompt mt)) = Inl e"
    by (auto simp: isl_def)
  then show ?thesis using True by (simp add: call_azure_openai_def Let_def marker_handle)
qed

lemma handle_fallback: "fallback_for e (handle e)"
  by (simp add: fallback_for_def handle_def)

lemma call_outcome:
  "call_azure_openai cfg post prompt mt sent =
     (if \<not> configured cfg then (not_configured_message, sent)
      else (case read_response (url (build_request cfg prompt mt)) (post (build_request cfg prompt mt)) of
              Inr content \<Rightarrow> content | Inl e \<Rightarrow> handle e,
            sent @ [build_request cfg prompt mt]))"
  by (simp add: call_azure_openai_def Let_def)

lemma call_describes:
  assumes "call_fails_on_error cfg (post (build_request cfg prompt mt))"
  shows "describes_failure cfg (url (build_request cfg prompt mt))
           (post (build_request cfg prompt mt)) (fst (call_azure_openai cfg post prompt mt sent))"
proof (cases "configured cfg")
  case False
  then show ?thesis by (simp add: describes_failure_def call_unconfigured)
next
  case True
  let ?req = "build_request cfg prompt mt"
  show ?thesis
  proof (cases "post ?req")
    case (PostRaises e)
    then show ?thesis using True
      by (simp add: describes_failure_def call_outcome read_response_def handle_fallback)
  next
    case (PostReturns r)
    with assms True have f: "error_status r \<or> payload_malformed r"
      by (simp add: call_fails_on_error_def)
    show ?thesis
    proof (cases "raise_for_status (url ?req) r")
      case (Inl e)
      then show ?thesis using True PostReturns
        by (simp add: describes_failure_def call_outcome read_response_def bind_exc_def
            handle_fallback)
    next
      case (Inr ok)
      then have "\<not> error_status r" using raise_for_status_error [of r "url ?req"] by auto
      with f have m: "payload_malformed r" by blast
      show ?thesis
      proof (cases "json_result r")
        case (Inl e)
        then show ?thesis using True PostReturns Inr
          by (simp add: describes_failure_def call_outcome read_response_def bind_exc_def
              handle_fallback)
      next
        case j: (Inr j)
        with m obtain e where "extract_content j = Inl e"
          by (auto simp: payload_malformed_def isl_def)
        then show ?thesis using True PostReturns Inr j
          by (simp add: describes_failure_def call_outcome read_response_def bind_exc_def
              handle_fallback)
      qed
    qed
  qed
qed

text \<open>
  C4, as amended. For every well-formed scheme and profile and every outcome of the
  text-generation call, the generator returns a string paired with the score of the match
  scorer and raises nothing. When the call fails (missing credentials, an exception of the
  call such as a network error or a timeout, a 4xx or 5xx response, or a malformed payload),
  the string is a fallback string: it starts with the warning marker and describes the
  failure, being the configuration warning or a handler's label followed by the text of the
  exception.
\<close>

theorem explanation_fallback_on_failure:
  assumes "well_formed scheme"
  shows "\<exists>explanation score sent'.
           generate_eligibility_explanation cfg post scheme profile sent =
             (Inr (explanation, score), sent') \<and>
           calculate_match_score scheme profile = Inr score \<and>
           (call_fails_on_error cfg (post (sent_request cfg scheme profile)) \<longrightarrow>
              prefix warning_marker explanation \<and>
              describes_failure cfg (url (sent_request cfg scheme profile))
                (post (sent_request cfg scheme profile)) explanation)"
proof -
  let ?prompt = "prompt_text (str_field scheme ''name'') (str_field scheme ''ministry'')
          (str_field scheme ''beneficiary'') (str_field scheme ''benefit'') profile"
  have p: "build_prompt scheme profile = Inr ?prompt"
    using assms by (rule build_prompt_wf)
  obtain n where n: "calculate_match_score scheme profile = Inr n"
    using score_wf [OF assms] by blast
  obtain ex sent' where c: "call_azure_openai cfg post ?prompt 150 sent = (ex, sent')"
    by (cases "call_azure_openai cfg post ?prompt 150 sent") blast
  have g: "generate_eligibility_explanation cfg post scheme profile sent = (Inr (ex, n), sent')"
    by (simp add: generate_eligibility_explanation_def p c n bind_exc_def)
  have "prefix warning_marker ex \<and>
        describes_failure cfg (url (sent_request cfg scheme profile))
          (post (sent_request cfg scheme profile)) ex"
    if f: "call_fails_on_error cfg (post (sent_request cfg scheme profile))"
  proof -
    from f have f': "call_fails_on_error cfg (post (build_request cfg ?prompt 150))"
      by (simp add: sent_request_def)
    have "prefix warning_marker (fst (call_azure_openai cfg post ?prompt 150 sent))"
      using f' by (rule call_fallback)
    moreover have "describes_failure cfg (url (build_request cfg ?prompt 150))
           (post (build_request cfg ?prompt 150)) (fst (call_azure_openai cfg post ?prompt 150 sent))"
      using f' by (rule call_describes)
    ultimately show ?thesis by (simp add: c sent_request_def)
  qed
  with g n show ?thesis by blast
qed

theorem explanation_fallback_on_failure_witness:
  "well_formed kisan_full \<and>
   call_fails_on_error azure_cfg (unavailable_post (sent_request azure_cfg kisan_full ''farmer'')) \<and>
   (\<exists>explanation score sent'.
      generate_eligibility_explanation azure_cfg unavailable_post kisan_full ''farmer'' [] =
        (Inr (explanation, score), sent') \<and>
      calculate_match_score kisan_full ''farmer'' = Inr score \<and>
      prefix warning_marker explanation \<and>
      describes_failure azure_cfg (url (sent_request azure_cfg kisan_full ''farmer''))
        (unavailable_post (sent_request azure_cfg kisan_full ''farmer'')) explanation)"
proof -
  have h1: "well_formed kisan_full" by code_simp
  have h2: "call_fails_on_error azure_cfg
              (unavailable_post (sent_request azure_cfg kisan_full ''farmer''))"
    by code_simp
  from explanation_fallback_on_failure
    [where scheme = kisan_full and cfg = azure_cfg and post = unavailable_post
       and profile = "''farmer''" and sent = "[]", OF h1] h1 h2
  show ?thesis by blast
qed

text \<open>
  C4 as stated fails for a response that is not 2xx and not an error either: with status 300
  and a well-shaped payload, \<open>raise_for_status\<close> raises nothing and the content of the
  payload is returned as the explanation, without a warning marker.
\<close>

theorem explanation_non_2xx_counterexample:
  "well_formed kisan_full \<and>
   call_fails azure_cfg (multiple_choices_post (sent_request azure_cfg kisan_full ''farmer'')) \<and>
   fst (generate_eligibility_explanation azure_cfg multiple_choices_post kisan_full ''farmer'' [])
     = Inr (''Eligible'', 55) \<and>
   \<not> prefix warning_marker ''Eligible''"
proof -
  have 1: "well_formed kisan_full" by code_simp
  have 2: "call_fails azure_cfg (multiple_choices_post (sent_request azure_cfg kisan_full ''farmer''))"
    by code_simp
  have 3: "fst (generate_eligibility_explanation azure_cfg multiple_choices_post kisan_full ''farmer'' [])
     = Inr (''Eligible'', 55)"
    by code_simp
  have 4: "\<not> prefix warning_marker ''Eligible''" by code_simp
  from 1 2 3 4 show ?thesis by simp
qed

text \<open>
  C5. For every well-formed scheme and profile, when the credentials are not configured the
  generator returns the configuration warning, which holds the warning marker, sends no
  request, and the score is the one the match scorer computes.
\<close>

theorem explanation_unconfigured:
  assumes "well_formed scheme" and "\<not> configured cfg"
  shows "\<exists>score. calculate_match_score scheme profile = Inr score \<and>
           generate_eligibility_explanation cfg post scheme profile sent =
             (Inr (not_configured_message, score), sent) \<and>
           sublist warning_marker not_configured_message"
proof -
  obtain n where n: "calculate_match_score scheme profile = Inr n"
    using score_wf [OF assms(1)] by blast
  have "generate_eligibility_explanation cfg post scheme profile sent =
             (Inr (not_configured_message, n), sent)"
    by (simp add: generate_eligibility_explanation_def build_prompt_wf [OF assms(1)]
        call_unconfigured [OF assms(2)] n bind_exc_def)
  moreover have "sublist warning_marker not_configured_message"
    using marker_not_configured by (rule prefix_imp_sublist)
  ultimately show ?thesis using n by blast
qed

theorem explanation_unconfigured_witness:
  "well_formed kisan_full \<and> \<not> configured no_cfg \<and>
   (\<exists>score. calculate_match_score kisan_full ''35 years old farmer'' = Inr score \<and>
      generate_eligibility_explanation no_cfg unavailable_post kisan_full ''35 years old farmer'' [] =
        (Inr (not_configured_message, score), []) \<and>
      sublist warning_marker not_configured_message)"
proof -
  have h1: "well_formed kisan_full" by code_simp
  have h2: "\<not> configured no_cfg" by code_simp
  from explanation_unconfigured
    [where scheme = kisan_full and cfg = no_cfg and post = unavailable_post
       and profile = "''35 years old farmer''" and sent = "[]", OF h1 h2] h1 h2
  show ?thesis by simp
qed

end
